theory Spec2Isabelle
  imports Main "HOL-Library.Sublist"
begin

section \<open>CPE 2.3 name matching: the module \<open>cpeset2_3.py\<close>\<close>

text \<open>
  The module compares two well-formed names attribute by attribute and keeps a list of
  names to match a candidate against. Python integers are \<open>int\<close>, Python byte strings
  are \<open>string\<close>, every exception the module can raise is a value of \<open>error\<close>, and the
  only mutable state, the list \<open>self.K\<close>, is passed in and returned.
\<close>

subsection \<open>The string methods the module calls\<close>

text \<open>
  \<open>str.find\<close>, \<open>str.count\<close>, \<open>str.startswith\<close>, \<open>str.endswith\<close>, \<open>str.lower\<close> and slicing
  are built into Python. Their index arguments are adjusted the way Python adjusts slice
  bounds: a negative index counts from the end, and both bounds are clipped to the string.
\<close>

definition bslash :: char where
  "bslash = CHR 0x5C"

definition adjust_index :: "string \<Rightarrow> int \<Rightarrow> nat" where
  "adjust_index s i =
     (let n = int (length s)
      in if i < 0 then nat (max 0 (i + n)) else nat (min i n))"

definition slice_str :: "string \<Rightarrow> int \<Rightarrow> int \<Rightarrow> string" where
  \<comment> \<open>\<open>s[start:end]\<close>\<close>
  "slice_str s start end =
     take (adjust_index s end - adjust_index s start) (drop (adjust_index s start) s)"

definition startswith :: "string \<Rightarrow> string \<Rightarrow> int \<Rightarrow> int \<Rightarrow> bool" where
  \<comment> \<open>\<open>s.startswith(sub, start, end)\<close> for a non-empty \<open>sub\<close>\<close>
  "startswith s sub start end = prefix sub (slice_str s start end)"

definition endswith :: "string \<Rightarrow> string \<Rightarrow> int \<Rightarrow> int \<Rightarrow> bool" where
  \<comment> \<open>\<open>s.endswith(sub, start, end)\<close> for a non-empty \<open>sub\<close>\<close>
  "endswith s sub start end = suffix sub (slice_str s start end)"

definition count_str :: "string \<Rightarrow> char \<Rightarrow> int \<Rightarrow> int \<Rightarrow> int" where
  \<comment> \<open>\<open>s.count(c, start, end)\<close> for a one-character \<open>c\<close>\<close>
  "count_str s c start end = int (length (filter (\<lambda>x. x = c) (slice_str s start end)))"

fun find_scan :: "string \<Rightarrow> string \<Rightarrow> nat \<Rightarrow> int" where
  "find_scan [] sub i = (if sub = [] then int i else - 1)"
| "find_scan (c # cs) sub i =
     (if prefix sub (c # cs) then int i else find_scan cs sub (Suc i))"

definition find_str :: "string \<Rightarrow> string \<Rightarrow> int \<Rightarrow> int" where
  \<comment> \<open>\<open>s.find(sub, start)\<close>: the lowest index from \<open>start\<close> on where \<open>sub\<close> occurs, or -1\<close>
  "find_str s sub start =
     (let n = int (length s);
          i = (if start < 0 then max 0 (start + n) else start)
      in if n < i then - 1 else find_scan (drop (nat i) s) sub (nat i))"

definition lower_char :: "char \<Rightarrow> char" where
  "lower_char c =
     (let n = (of_char c :: nat)
      in if 65 \<le> n \<and> n \<le> 90 then char_of (n + 32) else c)"

definition lower_str :: "string \<Rightarrow> string" where
  \<comment> \<open>\<open>s.lower()\<close> on a byte string\<close>
  "lower_str s = map lower_char s"

subsection \<open>Constants and values\<close>

datatype error = ValueError | TypeError | IndexError | KeyError

text \<open>
  The five relations are the integers 1 to 5 in the module, compared by equality only.
\<close>

datatype relation =
    LOGICAL_VALUE_SUPERSET
  | LOGICAL_VALUE_SUBSET
  | LOGICAL_VALUE_EQUAL
  | LOGICAL_VALUE_DISJOINT
  | LOGICAL_VALUE_UNDEFINED

text \<open>
  Modelled from the spec: the constants \<open>WILDCARD_MULTI\<close> and \<open>WILDCARD_ONE\<close> of
  \<open>CPE2_3_WFN\<close> are declared in another module. The spec names \<open>*\<close> as the
  multi-character wildcard and \<open>?\<close> as the single-character wildcard, and the comments of
  \<open>compareStrings\<close> say the same.
\<close>

definition WILDCARD_MULTI :: string where
  "WILDCARD_MULTI = ''*''"

definition WILDCARD_ONE :: string where
  "WILDCARD_ONE = ''?''"

text \<open>
  Modelled from the spec: the markers \<open>VALUE_ANY_VALUE\<close>, \<open>VALUE_NOT_APPLICABLE\<close> and
  \<open>VALUE_NULL\<close> of \<open>CPE2_3_WFN\<close> are declared in another module. The spec describes an
  attribute value as one of three reserved markers (any value, not applicable, unset) or
  literal text. The module tells them apart by \<open>==\<close> against the three constants, so a
  Python value equal to a marker is that marker, and \<open>Str s\<close> stands for every other
  string.
\<close>

datatype val =
    VALUE_ANY_VALUE
  | VALUE_NOT_APPLICABLE
  | VALUE_NULL
  | Str string

subsection \<open>Supporting predicates\<close>

definition is_string :: "val \<Rightarrow> bool" where
  "is_string arg =
     (let isAny = (arg = VALUE_ANY_VALUE);
          isNa = (arg = VALUE_NOT_APPLICABLE);
          isNull = (arg = VALUE_NULL)
      in \<not> (isAny \<or> isNa \<or> isNull))"

definition contains_wildcards :: "string \<Rightarrow> bool" where
  "contains_wildcards s =
     (let idx = find_str s ''*'' 0 in
      if idx \<noteq> - 1 \<and> (idx = 0 \<or> s ! nat (idx - 1) \<noteq> bslash) then True
      else
        let idx = find_str s ''?'' 0 in
        if idx \<noteq> - 1 \<and> (idx = 0 \<or> s ! nat (idx - 1) \<noteq> bslash) then True
        else False)"

text \<open>
  \<open>isEvenWildcards\<close> reads \<open>str[idx - 1]\<close> for a positive \<open>idx\<close>; Python raises
  \<open>IndexError\<close> when that position is past the end of the string.
\<close>

function isEvenWildcards_loop :: "string \<Rightarrow> int \<Rightarrow> int \<Rightarrow> error + int" where
  "isEvenWildcards_loop str idx result =
     (if idx > 0 then
        (if idx - 1 < int (length str) then
           (if str ! nat (idx - 1) = bslash
            then isEvenWildcards_loop str (idx - 1) (result + 1)
            else Inr result)
         else Inl IndexError)
      else Inr result)"
  by pat_completeness auto
termination
  by (relation "measure (\<lambda>(str, idx, result). nat idx)") auto

declare isEvenWildcards_loop.simps [simp del]

definition isEvenWildcards :: "string \<Rightarrow> int \<Rightarrow> error + bool" where
  "isEvenWildcards str idx =
     (case isEvenWildcards_loop str idx 0 of
        Inl e \<Rightarrow> Inl e
      | Inr result \<Rightarrow> Inr (result mod 2 = 0))"

subsection \<open>The wildcard string matcher\<close>

function leading_loop :: "string \<Rightarrow> int \<Rightarrow> int \<Rightarrow> int \<times> int" where
  "leading_loop source start begins =
     (if start < int (length source) \<and> startswith source WILDCARD_ONE start start
      then leading_loop source (start + 1) (begins + 1)
      else (start, begins))"
  by pat_completeness auto
termination
  by (relation "measure (\<lambda>(source, start, begins). nat (int (length source) - start))") auto

declare leading_loop.simps [simp del]

function trailing_loop :: "string \<Rightarrow> int \<Rightarrow> int \<Rightarrow> error + int \<times> int" where
  "trailing_loop source end ends =
     (if end > 0 \<and> endswith source WILDCARD_ONE (end - 1) (end - 1) then
        (case isEvenWildcards source (end - 1) of
           Inl e \<Rightarrow> Inl e
         | Inr even_escapes \<Rightarrow>
             if even_escapes then trailing_loop source (end - 1) (ends + 1)
             else Inr (end, ends))
      else Inr (end, ends))"
  by pat_completeness auto
termination
  by (relation "measure (\<lambda>(source, end, ends). nat end)") auto

declare trailing_loop.simps [simp del]

text \<open>
  The scan of \<open>compareStrings\<close>. \<open>break\<close> and falling out of the loop return
  \<open>LOGICAL_VALUE_DISJOINT\<close>, \<open>continue\<close> is the recursive call. The index returned by
  \<open>find\<close> is past the previous one and within the target, which is why the scan stops.
\<close>

function match_loop :: "string \<Rightarrow> string \<Rightarrow> int \<Rightarrow> int \<Rightarrow> int \<Rightarrow> int \<Rightarrow> relation" where
  "match_loop source target begins ends index leftover =
     (if leftover > 0 then
        (let index = find_str target source (index + 1) in
         if index = - 1 then LOGICAL_VALUE_DISJOINT
         else
           let escapes = count_str target bslash 0 index in
           if index > 0 \<and> begins \<noteq> - 1 \<and> begins < index - escapes
           then LOGICAL_VALUE_DISJOINT
           else
             let escapes = count_str target bslash (index + 1) (int (length target));
                 leftover = int (length target) - index - escapes - int (length source)
             in if leftover > 0 \<and> (ends \<noteq> - 1 \<and> leftover > ends)
                then match_loop source target begins ends index leftover
                else LOGICAL_VALUE_SUPERSET)
      else LOGICAL_VALUE_DISJOINT)"
  by pat_completeness auto
termination
proof (relation "measure (\<lambda>(source, target, begins, ends, index, leftover).
                            nat (int (length target) - index))")
  show "wf (measure (\<lambda>(source, target, begins, ends, index, leftover).
                       nat (int (length target) - index)))"
    by simp
next
  fix source target :: string and begins ends index leftover x leftover' :: int
  assume found: "x = find_str target source (index + 1)" "x \<noteq> - 1"
  have scan: "find_scan s sub i = - 1 \<or>
              (int i \<le> find_scan s sub i \<and> find_scan s sub i \<le> int i + int (length s))"
    for s sub :: string and i :: nat
    by (induction s sub i rule: find_scan.induct) auto
  have "index < x \<and> x \<le> int (length target)"
  proof (cases "index + 1 < 0")
    case True
    define i where "i = max 0 (index + 1 + int (length target))"
    have i: "0 \<le> i" "i \<le> int (length target)"
      using True by (auto simp: i_def)
    have "\<not> int (length target) < max 0 (index + 1 + int (length target))"
      using True by auto
    with found True have x: "x = find_scan (drop (nat i) target) source (nat i)"
      by (simp add: find_str_def Let_def i_def)
    from scan [of "drop (nat i) target" source "nat i"] found x i True
    show ?thesis by auto
  next
    case False
    from found False have le: "index + 1 \<le> int (length target)"
      by (auto simp: find_str_def Let_def split: if_splits)
    from found False le
    have x: "x = find_scan (drop (nat (index + 1)) target) source (nat (index + 1))"
      by (simp add: find_str_def Let_def)
    from scan [of "drop (nat (index + 1)) target" source "nat (index + 1)"] found x False le
    show ?thesis by auto
  qed
  then show "((source, target, begins, ends, x, leftover'),
              (source, target, begins, ends, index, leftover))
             \<in> measure (\<lambda>(source, target, begins, ends, index, leftover).
                          nat (int (length target) - index))"
    by simp
qed

declare match_loop.simps [simp del]

definition compareStrings :: "string \<Rightarrow> string \<Rightarrow> error + relation" where
  "compareStrings source target =
     (let start = 0;
          end = int (length source);
          begins = 0;
          ends = 0;
          (start, begins) =
            (if startswith source WILDCARD_MULTI 0 (int (length source))
             then (1, - 1)
             else leading_loop source start begins)
      in case (if endswith source WILDCARD_MULTI 0 (int (length source))
               then isEvenWildcards source (end - 1) else Inr False) of
           Inl e \<Rightarrow> Inl e
         | Inr ends_in_multi \<Rightarrow>
             (case (if ends_in_multi then Inr (end - 1, - 1)
                    else trailing_loop source end ends) of
                Inl e \<Rightarrow> Inl e
              | Inr (end, ends) \<Rightarrow>
                  let source = slice_str source start end;
                      index = - 1;
                      leftover = int (length target)
                  in Inr (match_loop source target begins ends index leftover)))"

subsection \<open>The value comparator\<close>

text \<open>
  \<open>lower\<close> is called on a value only after \<open>is_string\<close> has accepted it, and the text
  of a value is read only where the value is a string.
\<close>

fun lower_val :: "val \<Rightarrow> val" where
  "lower_val (Str s) = Str (lower_str s)"
| "lower_val v = v"

fun text_of :: "val \<Rightarrow> string" where
  "text_of (Str s) = s"
| "text_of v = []"

definition compare :: "val \<Rightarrow> val \<Rightarrow> error + relation" where
  "compare source target =
     (let source = (if is_string source then lower_val source else source);
          target = (if is_string target then lower_val target else target)
      in if is_string target \<and> contains_wildcards (text_of target)
         then Inr LOGICAL_VALUE_UNDEFINED
         else if source = target then Inr LOGICAL_VALUE_EQUAL
         else if source = VALUE_ANY_VALUE \<or> source = VALUE_NULL
         then Inr LOGICAL_VALUE_SUPERSET
         else if target = VALUE_ANY_VALUE \<or> target = VALUE_NULL
         then Inr LOGICAL_VALUE_SUBSET
         else
           let isSourceNA = (source = VALUE_NOT_APPLICABLE);
               isTargetNA = (target = VALUE_NOT_APPLICABLE)
           in if isSourceNA \<or> isTargetNA then Inr LOGICAL_VALUE_DISJOINT
              else compareStrings (text_of source) (text_of target))"

subsection \<open>Names and the attribute-wise comparison\<close>

text \<open>
  A name is read through \<open>version\<close>, \<open>style\<close>, \<open>str\<close> and \<open>get_value\<close>. The list of
  attribute keys \<open>CPE2_3_WFN.wfn_part_keys\<close>, the version tag \<open>CPE.VERSION_2_3\<close> and the
  style tag \<open>CPE2_3.STYLE_WFN\<close> are declared in other modules; the functions that use
  them take them as their first arguments.
\<close>

record 'k cpe =
  version :: string
  style :: string
  str :: string
  get_value :: "'k \<Rightarrow> val"

fun compare_wfns_loop ::
  "'k list \<Rightarrow> 'k cpe \<Rightarrow> 'k cpe \<Rightarrow> ('k \<rightharpoonup> relation) \<Rightarrow> error + ('k \<rightharpoonup> relation)" where
  "compare_wfns_loop [] source target result = Inr result"
| "compare_wfns_loop (att # atts) source target result =
     (case compare (get_value source att) (get_value target att) of
        Inl e \<Rightarrow> Inl e
      | Inr r \<Rightarrow> compare_wfns_loop atts source target (result(att \<mapsto> r)))"

definition compare_wfns ::
  "'k list \<Rightarrow> 'k cpe \<Rightarrow> 'k cpe \<Rightarrow> error + ('k \<rightharpoonup> relation)" where
  "compare_wfns wfn_part_keys source target =
     compare_wfns_loop wfn_part_keys source target Map.empty"

subsection \<open>The four set relations\<close>

text \<open>
  Each predicate walks the keys and reads \<open>result_dict[att]\<close>; a key missing from the
  dictionary would raise \<open>KeyError\<close>.
\<close>

fun cpe_disjoint_loop :: "'k list \<Rightarrow> ('k \<rightharpoonup> relation) \<Rightarrow> error + bool" where
  "cpe_disjoint_loop [] result_dict = Inr False"
| "cpe_disjoint_loop (att # atts) result_dict =
     (case result_dict att of
        None \<Rightarrow> Inl KeyError
      | Some result \<Rightarrow>
          let isDisjoint = (result = LOGICAL_VALUE_DISJOINT)
          in if isDisjoint then Inr True else cpe_disjoint_loop atts result_dict)"

definition cpe_disjoint :: "'k list \<Rightarrow> 'k cpe \<Rightarrow> 'k cpe \<Rightarrow> error + bool" where
  "cpe_disjoint wfn_part_keys source target =
     (case compare_wfns wfn_part_keys source target of
        Inl e \<Rightarrow> Inl e
      | Inr result_dict \<Rightarrow> cpe_disjoint_loop wfn_part_keys result_dict)"

fun cpe_equal_loop :: "'k list \<Rightarrow> ('k \<rightharpoonup> relation) \<Rightarrow> error + bool" where
  "cpe_equal_loop [] result_dict = Inr True"
| "cpe_equal_loop (att # atts) result_dict =
     (case result_dict att of
        None \<Rightarrow> Inl KeyError
      | Some result \<Rightarrow>
          let isEqual = (result = LOGICAL_VALUE_EQUAL)
          in if \<not> isEqual then Inr False else cpe_equal_loop atts result_dict)"

definition cpe_equal :: "'k list \<Rightarrow> 'k cpe \<Rightarrow> 'k cpe \<Rightarrow> error + bool" where
  "cpe_equal wfn_part_keys source target =
     (case compare_wfns wfn_part_keys source target of
        Inl e \<Rightarrow> Inl e
      | Inr result_dict \<Rightarrow> cpe_equal_loop wfn_part_keys result_dict)"

fun cpe_subset_loop :: "'k list \<Rightarrow> ('k \<rightharpoonup> relation) \<Rightarrow> error + bool" where
  "cpe_subset_loop [] result_dict = Inr True"
| "cpe_subset_loop (att # atts) result_dict =
     (case result_dict att of
        None \<Rightarrow> Inl KeyError
      | Some result \<Rightarrow>
          let isSubset = (result = LOGICAL_VALUE_SUBSET);
              isEqual = (result = LOGICAL_VALUE_EQUAL)
          in if (\<not> isSubset) \<and> (\<not> isEqual) then Inr False
             else cpe_subset_loop atts result_dict)"

definition cpe_subset :: "'k list \<Rightarrow> 'k cpe \<Rightarrow> 'k cpe \<Rightarrow> error + bool" where
  "cpe_subset wfn_part_keys source target =
     (case compare_wfns wfn_part_keys source target of
        Inl e \<Rightarrow> Inl e
      | Inr result_dict \<Rightarrow> cpe_subset_loop wfn_part_keys result_dict)"

fun cpe_superset_loop :: "'k list \<Rightarrow> ('k \<rightharpoonup> relation) \<Rightarrow> error + bool" where
  "cpe_superset_loop [] result_dict = Inr True"
| "cpe_superset_loop (att # atts) result_dict =
     (case result_dict att of
        None \<Rightarrow> Inl KeyError
      | Some result \<Rightarrow>
          let isSuperset = (result = LOGICAL_VALUE_SUPERSET);
              isEqual = (result = LOGICAL_VALUE_EQUAL)
          in if (\<not> isSuperset) \<and> (\<not> isEqual) then Inr False
             else cpe_superset_loop atts result_dict)"

definition cpe_superset :: "'k list \<Rightarrow> 'k cpe \<Rightarrow> 'k cpe \<Rightarrow> error + bool" where
  "cpe_superset wfn_part_keys source target =
     (case compare_wfns wfn_part_keys source target of
        Inl e \<Rightarrow> Inl e
      | Inr result_dict \<Rightarrow> cpe_superset_loop wfn_part_keys result_dict)"

subsection \<open>The collection\<close>

record 'k CPESet2_3 =
  K :: "'k cpe list"

definition init :: "'k CPESet2_3" where
  "init = \<lparr>K = []\<rparr>"

definition len :: "'k CPESet2_3 \<Rightarrow> nat" where
  "len self = length (K self)"

text \<open>
  \<open>append\<close> returns what the call returns or raises, together with the collection as the
  call leaves it. The scan for a name with the same string form returns early when it
  finds one.
\<close>

fun append_loop :: "'k cpe list \<Rightarrow> 'k cpe \<Rightarrow> bool" where
  "append_loop [] cpe = False"
| "append_loop (k # ks) cpe = (if str cpe = str k then True else append_loop ks cpe)"

definition append_cpe ::
  "string \<Rightarrow> string \<Rightarrow> 'k CPESet2_3 \<Rightarrow> 'k cpe \<Rightarrow> (error + unit) \<times> 'k CPESet2_3" where
  "append_cpe VERSION_2_3 STYLE_WFN self cpe =
     (if version cpe \<noteq> VERSION_2_3 then (Inl ValueError, self)
      else if style cpe \<noteq> STYLE_WFN then (Inl TypeError, self)
      else if append_loop (K self) cpe then (Inr (), self)
      else (Inr (), self\<lparr>K := K self @ [cpe]\<rparr>))"

fun name_match_loop :: "'k list \<Rightarrow> 'k cpe list \<Rightarrow> 'k cpe \<Rightarrow> error + bool" where
  "name_match_loop wfn_part_keys [] wfn = Inr False"
| "name_match_loop wfn_part_keys (N # Ns) wfn =
     (case cpe_superset wfn_part_keys wfn N of
        Inl e \<Rightarrow> Inl e
      | Inr is_superset \<Rightarrow>
          if is_superset then Inr True else name_match_loop wfn_part_keys Ns wfn)"

definition name_match :: "'k list \<Rightarrow> 'k CPESet2_3 \<Rightarrow> 'k cpe \<Rightarrow> error + bool" where
  "name_match wfn_part_keys self wfn = name_match_loop wfn_part_keys (K self) wfn"

subsection \<open>Example names\<close>

text \<open>
  Names over three attribute keys, used to evaluate the functions on concrete inputs.
  An attribute outside the three keys is unset.
\<close>

definition example_keys :: "string list" where
  "example_keys = [''part'', ''vendor'', ''product'']"

definition example_get_value :: "val \<Rightarrow> val \<Rightarrow> val \<Rightarrow> string \<Rightarrow> val" where
  "example_get_value part vendor product att =
     (if att = ''part'' then part
      else if att = ''vendor'' then vendor
      else if att = ''product'' then product
      else VALUE_NULL)"

definition example_name :: "string \<Rightarrow> string \<Rightarrow> string \<Rightarrow> val \<Rightarrow> val \<Rightarrow> val \<Rightarrow> string cpe" where
  "example_name ver sty text part vendor product =
     \<lparr>version = ver, style = sty, str = text,
      get_value = example_get_value part vendor product\<rparr>"

section \<open>Properties\<close>

subsection \<open>The loops of the string matcher\<close>

text \<open>
  \<open>startswith\<close> and \<open>endswith\<close> are called with equal start and end positions, so they
  look at an empty slice: neither loop over \<open>?\<close> ever runs its body.
\<close>

lemma slice_str_empty_range: "slice_str s i i = []"
  by (simp add: slice_str_def)

lemma startswith_empty_range: "\<not> startswith s WILDCARD_ONE i i"
  by (simp add: startswith_def slice_str_empty_range WILDCARD_ONE_def)

lemma endswith_empty_range: "\<not> endswith s WILDCARD_ONE i i"
  by (simp add: endswith_def slice_str_empty_range WILDCARD_ONE_def)

lemma leading_loop_unchanged: "leading_loop source start begins = (start, begins)"
  by (subst leading_loop.simps) (simp add: startswith_empty_range)

lemma trailing_loop_unchanged: "trailing_loop source end ends = Inr (end, ends)"
  by (subst trailing_loop.simps) (simp add: endswith_empty_range)

text \<open>
  \<open>isEvenWildcards\<close> raises nothing for a position within the string, which is where
  \<open>compareStrings\<close> calls it; so the matcher and the comparator always return a relation.
\<close>

lemma isEvenWildcards_loop_in_range:
  "idx \<le> int (length s) \<Longrightarrow> \<exists>r. isEvenWildcards_loop s idx result = Inr r"
proof (induction s idx result rule: isEvenWildcards_loop.induct)
  case (1 s idx result)
  show ?case
  proof (cases "idx > 0 \<and> s ! nat (idx - 1) = bslash")
    case True
    with "1.prems" have "\<exists>r. isEvenWildcards_loop s (idx - 1) (result + 1) = Inr r"
      by (intro "1.IH") auto
    with True "1.prems" show ?thesis
      by (subst isEvenWildcards_loop.simps) auto
  next
    case False
    with "1.prems" show ?thesis
      by (subst isEvenWildcards_loop.simps) auto
  qed
qed

lemma isEvenWildcards_in_range:
  "idx \<le> int (length s) \<Longrightarrow> \<exists>b. isEvenWildcards s idx = Inr b"
  using isEvenWildcards_loop_in_range [of idx s 0]
  by (auto simp: isEvenWildcards_def)

lemma match_loop_cases:
  "match_loop source target begins ends index leftover = LOGICAL_VALUE_SUPERSET \<or>
   match_loop source target begins ends index leftover = LOGICAL_VALUE_DISJOINT"
proof (induction source target begins ends index leftover rule: match_loop.induct)
  case (1 source target begins ends index leftover)
  show ?case
    using "1.IH"
    by (subst (1 2) match_loop.simps) (auto simp: Let_def)
qed

lemma compareStrings_cases:
  "compareStrings source target = Inr LOGICAL_VALUE_SUPERSET \<or>
   compareStrings source target = Inr LOGICAL_VALUE_DISJOINT"
proof -
  have "\<exists>b. isEvenWildcards source (int (length source) - 1) = Inr b"
    by (rule isEvenWildcards_in_range) simp
  then obtain b where b: "isEvenWildcards source (int (length source) - 1) = Inr b" ..
  show ?thesis
    by (cases "startswith source WILDCARD_MULTI 0 (int (length source))";
        cases "endswith source WILDCARD_MULTI 0 (int (length source))";
        cases b;
        simp add: compareStrings_def b leading_loop_unchanged trailing_loop_unchanged
                  match_loop_cases)
qed

lemma compare_total: "\<exists>r. compare source target = Inr r"
proof -
  have "\<exists>r. compareStrings s t = Inr r" for s t
    using compareStrings_cases [of s t] by blast
  then show ?thesis
    by (simp add: compare_def Let_def)
qed

text \<open>
  Claim C1 says that \<open>compareStrings\<close> strips a run of leading \<open>?\<close> and a run of
  trailing \<open>?\<close> from the source and allows that many characters around the match. The
  code does not: for every source both loops return their counters unchanged. So
  \<open>?bc\<close> against \<open>abc\<close> and \<open>ab?\<close> against \<open>abc\<close> are searched for as they are,
  question mark included, and the result is \<open>DISJOINT\<close> where the claim gives
  \<open>SUPERSET\<close>. Through \<open>compare\<close> the result is the same.

  The claim also bounds the characters after the match by the suffix slack. The code
  subtracts from them every backslash from the second character of the match on, those
  inside the match too: the source \<open>a\.\<close> has no wildcard, the target \<open>a\.b\<close> has one
  character after the match, and the result is \<open>SUPERSET\<close> where the claim gives
  \<open>DISJOINT\<close>.
\<close>

theorem compareStrings_question_mark_not_stripped:
  "leading_loop source start begins = (start, begins) \<and>
   trailing_loop source end ends = Inr (end, ends) \<and>
   compareStrings ''?bc'' ''abc'' = Inr LOGICAL_VALUE_DISJOINT \<and>
   compare (Str ''?bc'') (Str ''abc'') = Inr LOGICAL_VALUE_DISJOINT \<and>
   compareStrings ''ab?'' ''abc'' = Inr LOGICAL_VALUE_DISJOINT \<and>
   compare (Str ''ab?'') (Str ''abc'') = Inr LOGICAL_VALUE_DISJOINT \<and>
   compareStrings (''a'' @ bslash # ''.'') (''a'' @ bslash # ''.b'')
     = Inr LOGICAL_VALUE_SUPERSET"
proof -
  have "compareStrings ''?bc'' ''abc'' = Inr LOGICAL_VALUE_DISJOINT"
    by code_simp
  moreover have "compare (Str ''?bc'') (Str ''abc'') = Inr LOGICAL_VALUE_DISJOINT"
    by code_simp
  moreover have "compareStrings ''ab?'' ''abc'' = Inr LOGICAL_VALUE_DISJOINT"
    by code_simp
  moreover have "compare (Str ''ab?'') (Str ''abc'') = Inr LOGICAL_VALUE_DISJOINT"
    by code_simp
  moreover have "compareStrings (''a'' @ bslash # ''.'') (''a'' @ bslash # ''.b'')
                   = Inr LOGICAL_VALUE_SUPERSET"
    by code_simp
  ultimately show ?thesis
    by (simp add: leading_loop_unchanged trailing_loop_unchanged)
qed

subsection \<open>Wildcards in the target\<close>

text \<open>
  Claim C3 says that \<open>contains_wildcards\<close> returns true iff the string holds an
  unescaped \<open>*\<close> or \<open>?\<close> anywhere, unescaped meaning an even number of backslashes
  right before it. The code looks at the first \<open>*\<close> and the first \<open>?\<close> only, and at
  one character before each. In \<open>\*a*\<close> the first \<open>*\<close> is escaped and the last one is
  not (\<open>isEvenWildcards\<close> says so), and in \<open>\\*\<close> the \<open>*\<close> follows two backslashes;
  \<open>contains_wildcards\<close> returns false on both.
\<close>

theorem contains_wildcards_misses_later_wildcard:
  "contains_wildcards (bslash # ''*a*'') = False \<and>
   (bslash # ''*a*'') ! 3 = CHR ''*'' \<and>
   isEvenWildcards (bslash # ''*a*'') 3 = Inr True \<and>
   contains_wildcards ([bslash, bslash] @ ''*'') = False \<and>
   ([bslash, bslash] @ ''*'') ! 2 = CHR ''*'' \<and>
   isEvenWildcards ([bslash, bslash] @ ''*'') 2 = Inr True"
  by code_simp

text \<open>
  Claim C2 says that \<open>compare\<close> returns \<open>UNDEFINED\<close> whenever the target is a string
  with an unescaped \<open>*\<close> or \<open>?\<close>. The target \<open>\*a*\<close> ends in an unescaped \<open>*\<close>, which
  \<open>contains_wildcards\<close> misses: \<open>compare\<close> returns \<open>DISJOINT\<close> for the source \<open>x\<close>,
  \<open>SUPERSET\<close> for the source ANY and \<open>EQUAL\<close> for the target itself.
\<close>

theorem compare_target_wildcard_not_undefined:
  "(bslash # ''*a*'') ! 3 = CHR ''*'' \<and>
   isEvenWildcards (bslash # ''*a*'') 3 = Inr True \<and>
   compare (Str ''x'') (Str (bslash # ''*a*'')) = Inr LOGICAL_VALUE_DISJOINT \<and>
   compare VALUE_ANY_VALUE (Str (bslash # ''*a*'')) = Inr LOGICAL_VALUE_SUPERSET \<and>
   compare (Str (bslash # ''*a*'')) (Str (bslash # ''*a*'')) = Inr LOGICAL_VALUE_EQUAL"
  by code_simp

subsection \<open>The attribute-wise comparison\<close>

text \<open>
  \<open>compare_wfns\<close> returns a dictionary that holds, for every key, the relation that
  \<open>compare\<close> returns for the two values of that key.
\<close>

lemma compare_wfns_loop_result:
  "\<exists>m. compare_wfns_loop keys source target result = Inr m \<and>
       (\<forall>att. m att =
          (if att \<in> set keys
           then (case compare (get_value source att) (get_value target att) of
                   Inl e \<Rightarrow> None | Inr r \<Rightarrow> Some r)
           else result att))"
proof (induction keys arbitrary: result)
  case Nil
  show ?case by simp
next
  case (Cons att atts)
  obtain r where r: "compare (get_value source att) (get_value target att) = Inr r"
    using compare_total by blast
  from Cons [of "result(att \<mapsto> r)"] obtain m where
    m: "compare_wfns_loop atts source target (result(att \<mapsto> r)) = Inr m"
       "\<forall>a. m a =
          (if a \<in> set atts
           then (case compare (get_value source a) (get_value target a) of
                   Inl e \<Rightarrow> None | Inr r \<Rightarrow> Some r)
           else (result(att \<mapsto> r)) a)"
    by blast
  have "compare_wfns_loop (att # atts) source target result = Inr m"
    using r m(1) by simp
  moreover have "\<forall>a. m a =
          (if a \<in> set (att # atts)
           then (case compare (get_value source a) (get_value target a) of
                   Inl e \<Rightarrow> None | Inr r \<Rightarrow> Some r)
           else result a)"
    using r m(2) by auto
  ultimately show ?case by blast
qed

lemma compare_wfns_result:
  assumes "compare_wfns keys source target = Inr result_dict"
  shows "att \<in> set keys \<Longrightarrow>
         compare (get_value source att) (get_value target att) = Inr r \<longleftrightarrow>
         result_dict att = Some r"
proof -
  assume att: "att \<in> set keys"
  obtain r' where r': "compare (get_value source att) (get_value target att) = Inr r'"
    using compare_total by blast
  from compare_wfns_loop_result [of keys source target Map.empty] assms att
  have "result_dict att =
        (case compare (get_value source att) (get_value target att) of
           Inl e \<Rightarrow> None | Inr r \<Rightarrow> Some r)"
    by (auto simp: compare_wfns_def)
  with r' show ?thesis by simp
qed

lemma compare_wfns_total: "\<exists>result_dict. compare_wfns keys source target = Inr result_dict"
  using compare_wfns_loop_result [of keys source target Map.empty]
  by (auto simp: compare_wfns_def)

subsection \<open>The four set relations\<close>

lemma cpe_disjoint_loop_eq:
  "\<forall>att\<in>set keys. result_dict att \<noteq> None \<Longrightarrow>
   cpe_disjoint_loop keys result_dict =
     Inr (\<exists>att\<in>set keys. result_dict att = Some LOGICAL_VALUE_DISJOINT)"
  by (induction keys) auto

lemma cpe_equal_loop_eq:
  "\<forall>att\<in>set keys. result_dict att \<noteq> None \<Longrightarrow>
   cpe_equal_loop keys result_dict =
     Inr (\<forall>att\<in>set keys. result_dict att = Some LOGICAL_VALUE_EQUAL)"
  by (induction keys) auto

lemma cpe_subset_loop_eq:
  "\<forall>att\<in>set keys. result_dict att \<noteq> None \<Longrightarrow>
   cpe_subset_loop keys result_dict =
     Inr (\<forall>att\<in>set keys. result_dict att = Some LOGICAL_VALUE_SUBSET \<or>
                           result_dict att = Some LOGICAL_VALUE_EQUAL)"
  by (induction keys) auto

lemma cpe_superset_loop_eq:
  "\<forall>att\<in>set keys. result_dict att \<noteq> None \<Longrightarrow>
   cpe_superset_loop keys result_dict =
     Inr (\<forall>att\<in>set keys. result_dict att = Some LOGICAL_VALUE_SUPERSET \<or>
                           result_dict att = Some LOGICAL_VALUE_EQUAL)"
  by (induction keys) auto

lemma compare_wfns_defined:
  assumes "compare_wfns keys source target = Inr result_dict"
  shows "\<forall>att\<in>set keys. result_dict att \<noteq> None"
proof
  fix att assume att: "att \<in> set keys"
  obtain r where "compare (get_value source att) (get_value target att) = Inr r"
    using compare_total by blast
  with compare_wfns_result [OF assms att, of r] show "result_dict att \<noteq> None"
    by simp
qed

lemma example_values:
  "get_value (example_name ver sty text part vendor product) ''part'' = part"
  "get_value (example_name ver sty text part vendor product) ''vendor'' = vendor"
  "get_value (example_name ver sty text part vendor product) ''product'' = product"
  by (simp_all add: example_name_def example_get_value_def)

text \<open>
  Claim C4. For the dictionary \<open>result_dict\<close> that \<open>compare_wfns\<close> returns over the
  attribute keys: \<open>cpe_disjoint\<close> returns true iff some key has the relation
  \<open>DISJOINT\<close>; \<open>cpe_equal\<close> returns true iff every key has \<open>EQUAL\<close>; \<open>cpe_subset\<close>
  returns true iff every key has \<open>SUBSET\<close> or \<open>EQUAL\<close>; \<open>cpe_superset\<close> returns true
  iff every key has \<open>SUPERSET\<close> or \<open>EQUAL\<close>. Hence, when some key has \<open>UNDEFINED\<close> and
  no key has \<open>DISJOINT\<close>, all four return false. None of the four raises.
\<close>

theorem set_relation_predicates:
  assumes "compare_wfns keys source target = Inr result_dict"
  shows "cpe_disjoint keys source target =
           Inr (\<exists>att\<in>set keys. result_dict att = Some LOGICAL_VALUE_DISJOINT) \<and>
         cpe_equal keys source target =
           Inr (\<forall>att\<in>set keys. result_dict att = Some LOGICAL_VALUE_EQUAL) \<and>
         cpe_subset keys source target =
           Inr (\<forall>att\<in>set keys. result_dict att = Some LOGICAL_VALUE_SUBSET \<or>
                                 result_dict att = Some LOGICAL_VALUE_EQUAL) \<and>
         cpe_superset keys source target =
           Inr (\<forall>att\<in>set keys. result_dict att = Some LOGICAL_VALUE_SUPERSET \<or>
                                 result_dict att = Some LOGICAL_VALUE_EQUAL) \<and>
         ((\<exists>att\<in>set keys. result_dict att = Some LOGICAL_VALUE_UNDEFINED) \<and>
          (\<forall>att\<in>set keys. result_dict att \<noteq> Some LOGICAL_VALUE_DISJOINT) \<longrightarrow>
            cpe_disjoint keys source target = Inr False \<and>
            cpe_equal keys source target = Inr False \<and>
            cpe_subset keys source target = Inr False \<and>
            cpe_superset keys source target = Inr False)"
proof -
  note defined = compare_wfns_defined [OF assms]
  have d: "cpe_disjoint keys source target =
           Inr (\<exists>att\<in>set keys. result_dict att = Some LOGICAL_VALUE_DISJOINT)"
    by (simp add: cpe_disjoint_def assms cpe_disjoint_loop_eq [OF defined])
  have e: "cpe_equal keys source target =
           Inr (\<forall>att\<in>set keys. result_dict att = Some LOGICAL_VALUE_EQUAL)"
    by (simp add: cpe_equal_def assms cpe_equal_loop_eq [OF defined])
  have sb: "cpe_subset keys source target =
           Inr (\<forall>att\<in>set keys. result_dict att = Some LOGICAL_VALUE_SUBSET \<or>
                                 result_dict att = Some LOGICAL_VALUE_EQUAL)"
    by (simp add: cpe_subset_def assms cpe_subset_loop_eq [OF defined])
  have sp: "cpe_superset keys source target =
           Inr (\<forall>att\<in>set keys. result_dict att = Some LOGICAL_VALUE_SUPERSET \<or>
                                 result_dict att = Some LOGICAL_VALUE_EQUAL)"
    by (simp add: cpe_superset_def assms cpe_superset_loop_eq [OF defined])
  have u: "cpe_disjoint keys source target = Inr False \<and>
           cpe_equal keys source target = Inr False \<and>
           cpe_subset keys source target = Inr False \<and>
           cpe_superset keys source target = Inr False"
    if "\<exists>att\<in>set keys. result_dict att = Some LOGICAL_VALUE_UNDEFINED"
       "\<forall>att\<in>set keys. result_dict att \<noteq> Some LOGICAL_VALUE_DISJOINT"
  proof -
    from that(1) obtain att where att: "att \<in> set keys"
      "result_dict att = Some LOGICAL_VALUE_UNDEFINED" by blast
    from att have "\<not> (\<forall>att\<in>set keys. result_dict att = Some LOGICAL_VALUE_EQUAL)"
      by force
    moreover from att
    have "\<not> (\<forall>att\<in>set keys. result_dict att = Some LOGICAL_VALUE_SUBSET \<or>
                               result_dict att = Some LOGICAL_VALUE_EQUAL)"
      by force
    moreover from att
    have "\<not> (\<forall>att\<in>set keys. result_dict att = Some LOGICAL_VALUE_SUPERSET \<or>
                               result_dict att = Some LOGICAL_VALUE_EQUAL)"
      by force
    moreover from that(2)
    have "\<not> (\<exists>att\<in>set keys. result_dict att = Some LOGICAL_VALUE_DISJOINT)"
      by blast
    ultimately show ?thesis
      by (simp only: d e sb sp)
  qed
  from d e sb sp u show ?thesis by blast
qed

theorem set_relation_predicates_witness:
  "compare_wfns example_keys
     (example_name ''2.3'' ''WFN'' ''s'' (Str ''a'') (Str ''hp'') (Str ''mac''))
     (example_name ''2.3'' ''WFN'' ''t'' (Str ''a'') (Str ''hp'') (Str ''mac*''))
   = Inr [''part'' \<mapsto> LOGICAL_VALUE_EQUAL, ''vendor'' \<mapsto> LOGICAL_VALUE_EQUAL,
          ''product'' \<mapsto> LOGICAL_VALUE_UNDEFINED] \<and>
   cpe_disjoint example_keys
     (example_name ''2.3'' ''WFN'' ''s'' (Str ''a'') (Str ''hp'') (Str ''mac''))
     (example_name ''2.3'' ''WFN'' ''t'' (Str ''a'') (Str ''hp'') (Str ''mac*'')) = Inr False \<and>
   cpe_equal example_keys
     (example_name ''2.3'' ''WFN'' ''s'' (Str ''a'') (Str ''hp'') (Str ''mac''))
     (example_name ''2.3'' ''WFN'' ''t'' (Str ''a'') (Str ''hp'') (Str ''mac*'')) = Inr False \<and>
   cpe_subset example_keys
     (example_name ''2.3'' ''WFN'' ''s'' (Str ''a'') (Str ''hp'') (Str ''mac''))
     (example_name ''2.3'' ''WFN'' ''t'' (Str ''a'') (Str ''hp'') (Str ''mac*'')) = Inr False \<and>
   cpe_superset example_keys
     (example_name ''2.3'' ''WFN'' ''s'' (Str ''a'') (Str ''hp'') (Str ''mac''))
     (example_name ''2.3'' ''WFN'' ''t'' (Str ''a'') (Str ''hp'') (Str ''mac*'')) = Inr False"
proof -
  have c1: "compare (Str ''a'') (Str ''a'') = Inr LOGICAL_VALUE_EQUAL"
    by code_simp
  have c2: "compare (Str ''hp'') (Str ''hp'') = Inr LOGICAL_VALUE_EQUAL"
    by code_simp
  have c3: "compare (Str ''mac'') (Str ''mac*'') = Inr LOGICAL_VALUE_UNDEFINED"
    by code_simp
  have h: "compare_wfns example_keys
     (example_name ''2.3'' ''WFN'' ''s'' (Str ''a'') (Str ''hp'') (Str ''mac''))
     (example_name ''2.3'' ''WFN'' ''t'' (Str ''a'') (Str ''hp'') (Str ''mac*''))
   = Inr [''part'' \<mapsto> LOGICAL_VALUE_EQUAL, ''vendor'' \<mapsto> LOGICAL_VALUE_EQUAL,
          ''product'' \<mapsto> LOGICAL_VALUE_UNDEFINED]"
    by (simp add: compare_wfns_def example_keys_def example_values c1 c2 c3)
  from set_relation_predicates [OF h] h show ?thesis
    by (simp add: example_keys_def)
qed

subsection \<open>The value comparator\<close>

lemma compare_any_target:
  "x \<noteq> VALUE_ANY_VALUE \<Longrightarrow> x \<noteq> VALUE_NULL \<Longrightarrow>
   compare x VALUE_ANY_VALUE = Inr LOGICAL_VALUE_SUBSET"
  by (cases x) (simp_all add: compare_def is_string_def)

lemma compare_any_source:
  "x \<noteq> VALUE_ANY_VALUE \<Longrightarrow> x \<noteq> VALUE_NULL \<Longrightarrow>
   compare VALUE_ANY_VALUE x =
     Inr (if is_string x \<and> contains_wildcards (lower_str (text_of x))
          then LOGICAL_VALUE_UNDEFINED else LOGICAL_VALUE_SUPERSET)"
  by (cases x) (simp_all add: compare_def is_string_def)

text \<open>
  Claim C6 as stated says that \<open>compare(ANY, x)\<close> is \<open>SUPERSET\<close> for every \<open>x\<close> other
  than the two markers. The test for a wildcard in the target comes first: for the
  string \<open>mac*\<close> the result is \<open>UNDEFINED\<close>.
\<close>

theorem compare_any_counterexample:
  "Str ''mac*'' \<noteq> VALUE_ANY_VALUE \<and> Str ''mac*'' \<noteq> VALUE_NULL \<and>
   compare VALUE_ANY_VALUE (Str ''mac*'') = Inr LOGICAL_VALUE_UNDEFINED"
  by code_simp

text \<open>
  Claim C6, amended. For every value \<open>x\<close> that is neither the ANY marker nor the unset
  marker, \<open>compare(x, ANY)\<close> returns \<open>SUBSET\<close>, and \<open>compare(ANY, x)\<close> returns
  \<open>SUPERSET\<close> unless \<open>x\<close> is a string in whose lower-case form \<open>contains_wildcards\<close>
  finds a wildcard, in which case it returns \<open>UNDEFINED\<close>.
\<close>

theorem compare_any:
  "x \<noteq> VALUE_ANY_VALUE \<and> x \<noteq> VALUE_NULL \<longrightarrow>
   compare x VALUE_ANY_VALUE = Inr LOGICAL_VALUE_SUBSET \<and>
   compare VALUE_ANY_VALUE x =
     Inr (if is_string x \<and> contains_wildcards (lower_str (text_of x))
          then LOGICAL_VALUE_UNDEFINED else LOGICAL_VALUE_SUPERSET)"
  by (simp add: compare_any_target compare_any_source)

theorem compare_any_witness:
  "compare (Str ''Adobe'') VALUE_ANY_VALUE = Inr LOGICAL_VALUE_SUBSET \<and>
   compare VALUE_ANY_VALUE (Str ''Adobe'') = Inr LOGICAL_VALUE_SUPERSET \<and>
   compare VALUE_ANY_VALUE VALUE_NOT_APPLICABLE = Inr LOGICAL_VALUE_SUPERSET \<and>
   compare VALUE_ANY_VALUE (Str ''9.*'') = Inr LOGICAL_VALUE_UNDEFINED"
proof -
  have w1: "\<not> contains_wildcards (lower_str ''Adobe'')" by code_simp
  have w2: "contains_wildcards (lower_str ''9.*'')" by code_simp
  from compare_any [of "Str ''Adobe''"] compare_any [of VALUE_NOT_APPLICABLE]
       compare_any [of "Str ''9.*''"] w1 w2
  show ?thesis by (simp add: is_string_def)
qed

subsection \<open>The set relations on the relations of \<open>compare\<close>\<close>

text \<open>
  Each predicate, stated on the relations that \<open>compare\<close> returns for the keys.
\<close>

lemma cpe_equal_compare:
  "cpe_equal keys source target =
     Inr (\<forall>att\<in>set keys.
            compare (get_value source att) (get_value target att) = Inr LOGICAL_VALUE_EQUAL)"
proof -
  obtain result_dict where rd: "compare_wfns keys source target = Inr result_dict"
    using compare_wfns_total by blast
  show ?thesis
    by (simp add: cpe_equal_def rd cpe_equal_loop_eq [OF compare_wfns_defined [OF rd]]
                  compare_wfns_result [OF rd])
qed

lemma cpe_subset_compare:
  "cpe_subset keys source target =
     Inr (\<forall>att\<in>set keys.
            compare (get_value source att) (get_value target att) = Inr LOGICAL_VALUE_SUBSET \<or>
            compare (get_value source att) (get_value target att) = Inr LOGICAL_VALUE_EQUAL)"
proof -
  obtain result_dict where rd: "compare_wfns keys source target = Inr result_dict"
    using compare_wfns_total by blast
  show ?thesis
    by (simp add: cpe_subset_def rd cpe_subset_loop_eq [OF compare_wfns_defined [OF rd]]
                  compare_wfns_result [OF rd])
qed

lemma cpe_superset_compare:
  "cpe_superset keys source target =
     Inr (\<forall>att\<in>set keys.
            compare (get_value source att) (get_value target att) = Inr LOGICAL_VALUE_SUPERSET \<or>
            compare (get_value source att) (get_value target att) = Inr LOGICAL_VALUE_EQUAL)"
proof -
  obtain result_dict where rd: "compare_wfns keys source target = Inr result_dict"
    using compare_wfns_total by blast
  show ?thesis
    by (simp add: cpe_superset_def rd cpe_superset_loop_eq [OF compare_wfns_defined [OF rd]]
                  compare_wfns_result [OF rd])
qed

lemma compare_same:
  "compare v v =
     Inr (if is_string v \<and> contains_wildcards (lower_str (text_of v))
          then LOGICAL_VALUE_UNDEFINED else LOGICAL_VALUE_EQUAL)"
  by (cases v) (simp_all add: compare_def is_string_def)

text \<open>
  Claim C7 as stated says that \<open>cpe_equal(x, x)\<close> is true for every name. A name whose
  product is the string \<open>mac*\<close> compares \<open>UNDEFINED\<close> with itself on that attribute,
  so \<open>cpe_equal\<close> returns false.
\<close>

theorem cpe_equal_reflexive_counterexample:
  "cpe_equal example_keys
     (example_name ''2.3'' ''WFN'' ''k'' (Str ''a'') (Str ''hp'') (Str ''mac*''))
     (example_name ''2.3'' ''WFN'' ''k'' (Str ''a'') (Str ''hp'') (Str ''mac*'')) = Inr False"
proof -
  have "compare (Str ''mac*'') (Str ''mac*'') = Inr LOGICAL_VALUE_UNDEFINED"
    by code_simp
  then show ?thesis
    by (simp add: cpe_equal_compare example_keys_def example_values)
qed

text \<open>
  Claim C7, amended. For every name \<open>x\<close>, \<open>cpe_equal(x, x)\<close> returns true iff no
  attribute value of \<open>x\<close> is a string in whose lower-case form \<open>contains_wildcards\<close>
  finds a wildcard; it never raises.
\<close>

theorem cpe_equal_reflexive:
  "cpe_equal keys x x =
     Inr (\<forall>att\<in>set keys.
            \<not> (is_string (get_value x att) \<and>
               contains_wildcards (lower_str (text_of (get_value x att)))))"
  by (simp add: cpe_equal_compare compare_same)

theorem cpe_equal_reflexive_witness:
  "cpe_equal example_keys
     (example_name ''2.3'' ''WFN'' ''k'' (Str ''a'') VALUE_NOT_APPLICABLE VALUE_ANY_VALUE)
     (example_name ''2.3'' ''WFN'' ''k'' (Str ''a'') VALUE_NOT_APPLICABLE VALUE_ANY_VALUE) = Inr True"
proof -
  have w: "\<not> contains_wildcards (lower_str ''a'')" by code_simp
  from cpe_equal_reflexive
         [of example_keys
             "example_name ''2.3'' ''WFN'' ''k'' (Str ''a'') VALUE_NOT_APPLICABLE VALUE_ANY_VALUE"]
       w
  show ?thesis by (simp add: example_keys_def example_values is_string_def)
qed

text \<open>
  Swapping source and target: \<open>EQUAL\<close> stays \<open>EQUAL\<close>, and \<open>SUPERSET\<close> turns into
  \<open>SUBSET\<close> only when the source is a marker and the target is not.
\<close>

lemma compare_Str_Str:
  "compare (Str a) (Str b) =
     (if contains_wildcards (lower_str b) then Inr LOGICAL_VALUE_UNDEFINED
      else if lower_str a = lower_str b then Inr LOGICAL_VALUE_EQUAL
      else compareStrings (lower_str a) (lower_str b))"
  by (simp add: compare_def is_string_def Let_def)

lemma compare_converse_of_equal:
  "compare s t = Inr LOGICAL_VALUE_EQUAL \<Longrightarrow> compare t s = Inr LOGICAL_VALUE_EQUAL"
proof (cases s)
  case (Str a)
  assume eq: "compare s t = Inr LOGICAL_VALUE_EQUAL"
  show ?thesis
  proof (cases t)
    case (Str b)
    with eq \<open>s = Str a\<close> show ?thesis
      using compareStrings_cases [of "lower_str a" "lower_str b"]
      by (auto simp: compare_Str_Str split: if_splits)
  qed (use eq \<open>s = Str a\<close> in \<open>auto simp: compare_def is_string_def Let_def split: if_splits\<close>)
qed (cases t; auto simp: compare_def is_string_def Let_def split: if_splits)+

lemma compare_converse_of_superset:
  assumes "compare s t = Inr LOGICAL_VALUE_SUPERSET"
  shows "(compare t s = Inr LOGICAL_VALUE_SUBSET \<or> compare t s = Inr LOGICAL_VALUE_EQUAL) \<longleftrightarrow>
         (s = VALUE_ANY_VALUE \<or> s = VALUE_NULL) \<and> t \<noteq> VALUE_ANY_VALUE \<and> t \<noteq> VALUE_NULL"
proof (cases s)
  case (Str a)
  note s = this
  show ?thesis
  proof (cases t)
    case (Str b)
    have "compareStrings (lower_str b) (lower_str a) = Inr LOGICAL_VALUE_SUPERSET \<or>
          compareStrings (lower_str b) (lower_str a) = Inr LOGICAL_VALUE_DISJOINT"
      by (rule compareStrings_cases)
    with assms s Str show ?thesis
      by (auto simp: compare_Str_Str split: if_splits)
  qed (use assms s in \<open>auto simp: compare_def is_string_def Let_def split: if_splits\<close>)
qed (use assms in \<open>cases t; auto simp: compare_def is_string_def Let_def split: if_splits\<close>)+

lemma compare_converse:
  assumes "compare s t = Inr LOGICAL_VALUE_SUPERSET \<or> compare s t = Inr LOGICAL_VALUE_EQUAL"
  shows "(compare t s = Inr LOGICAL_VALUE_SUBSET \<or> compare t s = Inr LOGICAL_VALUE_EQUAL) \<longleftrightarrow>
         (compare s t = Inr LOGICAL_VALUE_SUPERSET \<longrightarrow>
            (s = VALUE_ANY_VALUE \<or> s = VALUE_NULL) \<and> t \<noteq> VALUE_ANY_VALUE \<and> t \<noteq> VALUE_NULL)"
  using assms compare_converse_of_equal [of s t] compare_converse_of_superset [of s t]
  by auto

text \<open>
  Claim C8 as stated says that \<open>cpe_subset(y, x)\<close> is true whenever every relation of
  \<open>compare_wfns(x, y)\<close> is \<open>SUPERSET\<close> or \<open>EQUAL\<close>. With the product \<open>mac*\<close> in \<open>x\<close>
  and \<open>mac\<close> in \<open>y\<close> every relation is \<open>SUPERSET\<close> or \<open>EQUAL\<close>, yet in the other
  direction the wildcard is in the target, the relation is \<open>UNDEFINED\<close>, and
  \<open>cpe_subset(y, x)\<close> returns false.
\<close>

theorem cpe_superset_converse_counterexample:
  "compare_wfns example_keys
     (example_name ''2.3'' ''WFN'' ''x'' (Str ''a'') VALUE_ANY_VALUE (Str ''mac*''))
     (example_name ''2.3'' ''WFN'' ''y'' (Str ''a'') (Str ''hp'') (Str ''mac''))
   = Inr [''part'' \<mapsto> LOGICAL_VALUE_EQUAL, ''vendor'' \<mapsto> LOGICAL_VALUE_SUPERSET,
          ''product'' \<mapsto> LOGICAL_VALUE_SUPERSET] \<and>
   cpe_subset example_keys
     (example_name ''2.3'' ''WFN'' ''y'' (Str ''a'') (Str ''hp'') (Str ''mac''))
     (example_name ''2.3'' ''WFN'' ''x'' (Str ''a'') VALUE_ANY_VALUE (Str ''mac*'')) = Inr False"
proof -
  have c1: "compare (Str ''a'') (Str ''a'') = Inr LOGICAL_VALUE_EQUAL"
    by code_simp
  have c2: "compare VALUE_ANY_VALUE (Str ''hp'') = Inr LOGICAL_VALUE_SUPERSET"
    by code_simp
  have c3: "compare (Str ''mac*'') (Str ''mac'') = Inr LOGICAL_VALUE_SUPERSET"
    by code_simp
  have c4: "compare (Str ''mac'') (Str ''mac*'') = Inr LOGICAL_VALUE_UNDEFINED"
    by code_simp
  have 1: "compare_wfns example_keys
     (example_name ''2.3'' ''WFN'' ''x'' (Str ''a'') VALUE_ANY_VALUE (Str ''mac*''))
     (example_name ''2.3'' ''WFN'' ''y'' (Str ''a'') (Str ''hp'') (Str ''mac''))
   = Inr [''part'' \<mapsto> LOGICAL_VALUE_EQUAL, ''vendor'' \<mapsto> LOGICAL_VALUE_SUPERSET,
          ''product'' \<mapsto> LOGICAL_VALUE_SUPERSET]"
    by (simp add: compare_wfns_def example_keys_def example_values c1 c2 c3)
  have 2: "cpe_subset example_keys
     (example_name ''2.3'' ''WFN'' ''y'' (Str ''a'') (Str ''hp'') (Str ''mac''))
     (example_name ''2.3'' ''WFN'' ''x'' (Str ''a'') VALUE_ANY_VALUE (Str ''mac*'')) = Inr False"
    by (simp add: cpe_subset_compare example_keys_def example_values c4)
  from 1 2 show ?thesis by (rule conjI)
qed

text \<open>
  Claim C8, amended. If every relation that \<open>compare_wfns(x, y)\<close> computes is
  \<open>SUPERSET\<close> or \<open>EQUAL\<close>, then \<open>cpe_superset(x, y)\<close> returns true, and
  \<open>cpe_subset(y, x)\<close> returns true iff, on every attribute whose relation is
  \<open>SUPERSET\<close>, the value of \<open>x\<close> is the ANY or the unset marker and the value of \<open>y\<close>
  is neither.
\<close>

theorem cpe_superset_converse:
  assumes "compare_wfns keys x y = Inr result_dict"
      and "\<forall>att\<in>set keys. result_dict att = Some LOGICAL_VALUE_SUPERSET \<or>
                            result_dict att = Some LOGICAL_VALUE_EQUAL"
  shows "cpe_superset keys x y = Inr True \<and>
         cpe_subset keys y x =
           Inr (\<forall>att\<in>set keys. result_dict att = Some LOGICAL_VALUE_SUPERSET \<longrightarrow>
                  (get_value x att = VALUE_ANY_VALUE \<or> get_value x att = VALUE_NULL) \<and>
                  get_value y att \<noteq> VALUE_ANY_VALUE \<and> get_value y att \<noteq> VALUE_NULL)"
proof -
  have rel: "compare (get_value x att) (get_value y att) = Inr LOGICAL_VALUE_SUPERSET \<or>
             compare (get_value x att) (get_value y att) = Inr LOGICAL_VALUE_EQUAL"
    if "att \<in> set keys" for att
    using assms(2) that by (simp add: compare_wfns_result [OF assms(1) that])
  then have sup: "cpe_superset keys x y = Inr True"
    by (simp add: cpe_superset_compare)
  have "(\<forall>att\<in>set keys.
           compare (get_value y att) (get_value x att) = Inr LOGICAL_VALUE_SUBSET \<or>
           compare (get_value y att) (get_value x att) = Inr LOGICAL_VALUE_EQUAL) \<longleftrightarrow>
        (\<forall>att\<in>set keys. result_dict att = Some LOGICAL_VALUE_SUPERSET \<longrightarrow>
           (get_value x att = VALUE_ANY_VALUE \<or> get_value x att = VALUE_NULL) \<and>
           get_value y att \<noteq> VALUE_ANY_VALUE \<and> get_value y att \<noteq> VALUE_NULL)"
  proof (rule ball_cong [OF refl])
    fix att assume att: "att \<in> set keys"
    from compare_converse [OF rel [OF att]]
    show "(compare (get_value y att) (get_value x att) = Inr LOGICAL_VALUE_SUBSET \<or>
           compare (get_value y att) (get_value x att) = Inr LOGICAL_VALUE_EQUAL) \<longleftrightarrow>
          (result_dict att = Some LOGICAL_VALUE_SUPERSET \<longrightarrow>
             (get_value x att = VALUE_ANY_VALUE \<or> get_value x att = VALUE_NULL) \<and>
             get_value y att \<noteq> VALUE_ANY_VALUE \<and> get_value y att \<noteq> VALUE_NULL)"
      by (simp add: compare_wfns_result [OF assms(1) att])
  qed
  then have sub: "cpe_subset keys y x =
           Inr (\<forall>att\<in>set keys. result_dict att = Some LOGICAL_VALUE_SUPERSET \<longrightarrow>
                  (get_value x att = VALUE_ANY_VALUE \<or> get_value x att = VALUE_NULL) \<and>
                  get_value y att \<noteq> VALUE_ANY_VALUE \<and> get_value y att \<noteq> VALUE_NULL)"
    by (simp only: cpe_subset_compare)
  from sup sub show ?thesis by (rule conjI)
qed

theorem cpe_superset_converse_witness:
  "cpe_superset example_keys
     (example_name ''2.3'' ''WFN'' ''x'' (Str ''a'') VALUE_ANY_VALUE VALUE_NULL)
     (example_name ''2.3'' ''WFN'' ''y'' (Str ''a'') (Str ''hp'') VALUE_NOT_APPLICABLE) = Inr True \<and>
   cpe_subset example_keys
     (example_name ''2.3'' ''WFN'' ''y'' (Str ''a'') (Str ''hp'') VALUE_NOT_APPLICABLE)
     (example_name ''2.3'' ''WFN'' ''x'' (Str ''a'') VALUE_ANY_VALUE VALUE_NULL) = Inr True"
proof -
  have c1: "compare (Str ''a'') (Str ''a'') = Inr LOGICAL_VALUE_EQUAL"
    by code_simp
  have c2: "compare VALUE_ANY_VALUE (Str ''hp'') = Inr LOGICAL_VALUE_SUPERSET"
    by code_simp
  have c3: "compare VALUE_NULL VALUE_NOT_APPLICABLE = Inr LOGICAL_VALUE_SUPERSET"
    by code_simp
  have h: "compare_wfns example_keys
     (example_name ''2.3'' ''WFN'' ''x'' (Str ''a'') VALUE_ANY_VALUE VALUE_NULL)
     (example_name ''2.3'' ''WFN'' ''y'' (Str ''a'') (Str ''hp'') VALUE_NOT_APPLICABLE)
   = Inr [''part'' \<mapsto> LOGICAL_VALUE_EQUAL, ''vendor'' \<mapsto> LOGICAL_VALUE_SUPERSET,
          ''product'' \<mapsto> LOGICAL_VALUE_SUPERSET]"
    by (simp add: compare_wfns_def example_keys_def example_values c1 c2 c3)
  have a: "\<forall>att\<in>set example_keys.
             [''part'' \<mapsto> LOGICAL_VALUE_EQUAL, ''vendor'' \<mapsto> LOGICAL_VALUE_SUPERSET,
              ''product'' \<mapsto> LOGICAL_VALUE_SUPERSET] att = Some LOGICAL_VALUE_SUPERSET \<or>
             [''part'' \<mapsto> LOGICAL_VALUE_EQUAL, ''vendor'' \<mapsto> LOGICAL_VALUE_SUPERSET,
              ''product'' \<mapsto> LOGICAL_VALUE_SUPERSET] att = Some LOGICAL_VALUE_EQUAL"
    by (simp add: example_keys_def)
  from cpe_superset_converse [OF h a] show ?thesis
    by (simp add: example_keys_def example_values)
qed

subsection \<open>Name matching\<close>

lemma name_match_loop_eq:
  "name_match_loop keys Ns wfn = Inr (\<exists>N\<in>set Ns. cpe_superset keys wfn N = Inr True)"
proof (induction Ns)
  case Nil
  show ?case by simp
next
  case (Cons N Ns)
  obtain b where b: "cpe_superset keys wfn N = Inr b"
    by (simp add: cpe_superset_compare)
  with Cons show ?case by (cases b) simp_all
qed

text \<open>
  Claim C5. \<open>name_match\<close> returns true iff some member \<open>N\<close> of the collection has
  \<open>cpe_superset(candidate, N)\<close> true, and it never raises. It walks the members in the
  order the collection stores them and returns at the first such member: the result is
  the one obtained on the collection cut off after that member.
\<close>

theorem name_match_first_superset:
  "name_match keys self wfn = Inr (\<exists>N\<in>set (K self). cpe_superset keys wfn N = Inr True) \<and>
   (\<forall>Ks N Ns. K self = Ks @ N # Ns \<and> cpe_superset keys wfn N = Inr True \<longrightarrow>
      name_match keys self wfn = name_match keys (self\<lparr>K := Ks @ [N]\<rparr>) wfn)"
  by (auto simp: name_match_def name_match_loop_eq)

theorem name_match_first_superset_witness:
  "name_match example_keys
     \<lparr>K = [example_name ''2.3'' ''WFN'' ''k1'' (Str ''o'') (Str ''hp'') (Str ''ux''),
            example_name ''2.3'' ''WFN'' ''k2'' (Str ''a'') (Str ''hp'') (Str ''mac''),
            example_name ''2.3'' ''WFN'' ''k3'' (Str ''a'') (Str ''hp'') (Str ''mac*'')]\<rparr>
     (example_name ''2.3'' ''WFN'' ''x'' (Str ''a'') (Str ''hp'') VALUE_ANY_VALUE) = Inr True \<and>
   name_match example_keys
     \<lparr>K = [example_name ''2.3'' ''WFN'' ''k1'' (Str ''o'') (Str ''hp'') (Str ''ux''),
            example_name ''2.3'' ''WFN'' ''k2'' (Str ''a'') (Str ''hp'') (Str ''mac'')]\<rparr>
     (example_name ''2.3'' ''WFN'' ''x'' (Str ''a'') (Str ''hp'') VALUE_ANY_VALUE) = Inr True"
proof -
  let ?x = "example_name ''2.3'' ''WFN'' ''x'' (Str ''a'') (Str ''hp'') VALUE_ANY_VALUE"
  let ?k1 = "example_name ''2.3'' ''WFN'' ''k1'' (Str ''o'') (Str ''hp'') (Str ''ux'')"
  let ?k2 = "example_name ''2.3'' ''WFN'' ''k2'' (Str ''a'') (Str ''hp'') (Str ''mac'')"
  let ?k3 = "example_name ''2.3'' ''WFN'' ''k3'' (Str ''a'') (Str ''hp'') (Str ''mac*'')"
  have c1: "compare (Str ''a'') (Str ''a'') = Inr LOGICAL_VALUE_EQUAL"
    by code_simp
  have c2: "compare (Str ''hp'') (Str ''hp'') = Inr LOGICAL_VALUE_EQUAL"
    by code_simp
  have c3: "compare VALUE_ANY_VALUE (Str ''mac'') = Inr LOGICAL_VALUE_SUPERSET"
    by code_simp
  have sup: "cpe_superset example_keys ?x ?k2 = Inr True"
    by (simp add: cpe_superset_compare example_keys_def example_values c1 c2 c3)
  note inst = name_match_first_superset [of example_keys "\<lparr>K = [?k1, ?k2, ?k3]\<rparr>" ?x]
  from inst sup have r1: "name_match example_keys \<lparr>K = [?k1, ?k2, ?k3]\<rparr> ?x = Inr True"
    by simp
  from inst have "K \<lparr>K = [?k1, ?k2, ?k3]\<rparr> = [?k1] @ ?k2 # [?k3] \<and>
                 cpe_superset example_keys ?x ?k2 = Inr True \<longrightarrow>
        name_match example_keys \<lparr>K = [?k1, ?k2, ?k3]\<rparr> ?x =
        name_match example_keys (\<lparr>K = [?k1, ?k2, ?k3]\<rparr>\<lparr>K := [?k1] @ [?k2]\<rparr>) ?x"
    by blast
  with sup have r2: "name_match example_keys \<lparr>K = [?k1, ?k2, ?k3]\<rparr> ?x =
        name_match example_keys \<lparr>K = [?k1, ?k2]\<rparr> ?x"
    by simp
  from r1 r2 show ?thesis by simp
qed

subsection \<open>Appending to the collection\<close>

lemma append_loop_eq: "append_loop ks cpe = (\<exists>k\<in>set ks. str cpe = str k)"
  by (induction ks) auto

text \<open>
  Claim C9 as stated says that \<open>append\<close> raises the type error exactly when the style is
  not the WFN style. The version is checked first: a name whose version is not 2.3 and
  whose style is not WFN raises the value error, not the type error.
\<close>

theorem append_cpe_version_before_style_counterexample:
  "style (example_name ''2.2'' ''URI'' ''cpe:/a:hp'' (Str ''a'') (Str ''hp'') VALUE_ANY_VALUE)
     \<noteq> ''WFN'' \<and>
   fst (append_cpe ''2.3'' ''WFN'' init
          (example_name ''2.2'' ''URI'' ''cpe:/a:hp'' (Str ''a'') (Str ''hp'') VALUE_ANY_VALUE))
     = Inl ValueError"
  by (simp add: append_cpe_def example_name_def)

text \<open>
  Claim C9, amended. \<open>append\<close> raises the value error exactly when the version of the
  element differs from version 2.3; it raises the type error exactly when the version is
  2.3 and the style is not the WFN style; for a conforming element whose string form
  equals that of a stored member it returns and leaves the collection as it was; and
  appending a conforming element a second time leaves the collection, and so its size,
  unchanged.
\<close>

theorem append_cpe_errors_and_duplicates:
  "(fst (append_cpe VERSION_2_3 STYLE_WFN self cpe) = Inl ValueError
      \<longleftrightarrow> version cpe \<noteq> VERSION_2_3) \<and>
   (fst (append_cpe VERSION_2_3 STYLE_WFN self cpe) = Inl TypeError
      \<longleftrightarrow> version cpe = VERSION_2_3 \<and> style cpe \<noteq> STYLE_WFN) \<and>
   (version cpe = VERSION_2_3 \<and> style cpe = STYLE_WFN \<and> (\<exists>k\<in>set (K self). str cpe = str k)
      \<longrightarrow> append_cpe VERSION_2_3 STYLE_WFN self cpe = (Inr (), self)) \<and>
   (version cpe = VERSION_2_3 \<and> style cpe = STYLE_WFN
      \<longrightarrow> append_cpe VERSION_2_3 STYLE_WFN
            (snd (append_cpe VERSION_2_3 STYLE_WFN self cpe)) cpe
          = (Inr (), snd (append_cpe VERSION_2_3 STYLE_WFN self cpe)) \<and>
          len (snd (append_cpe VERSION_2_3 STYLE_WFN
                     (snd (append_cpe VERSION_2_3 STYLE_WFN self cpe)) cpe))
          = len (snd (append_cpe VERSION_2_3 STYLE_WFN self cpe)))"
  by (auto simp: append_cpe_def append_loop_eq len_def)

theorem append_cpe_errors_and_duplicates_witness:
  "fst (append_cpe ''2.3'' ''WFN'' init
          (example_name ''2.3'' ''URI'' ''cpe:/a:hp'' (Str ''a'') (Str ''hp'') VALUE_ANY_VALUE))
     = Inl TypeError \<and>
   append_cpe ''2.3'' ''WFN''
     \<lparr>K = [example_name ''2.3'' ''WFN'' ''k1'' (Str ''a'') (Str ''hp'') (Str ''mac'')]\<rparr>
     (example_name ''2.3'' ''WFN'' ''k1'' (Str ''a'') (Str ''hp'') (Str ''mac''))
   = (Inr (), \<lparr>K = [example_name ''2.3'' ''WFN'' ''k1'' (Str ''a'') (Str ''hp'') (Str ''mac'')]\<rparr>) \<and>
   len (snd (append_cpe ''2.3'' ''WFN''
               (snd (append_cpe ''2.3'' ''WFN'' init
                       (example_name ''2.3'' ''WFN'' ''k1'' (Str ''a'') (Str ''hp'') (Str ''mac''))))
               (example_name ''2.3'' ''WFN'' ''k1'' (Str ''a'') (Str ''hp'') (Str ''mac''))))
   = len (snd (append_cpe ''2.3'' ''WFN'' init
                 (example_name ''2.3'' ''WFN'' ''k1'' (Str ''a'') (Str ''hp'') (Str ''mac''))))"
proof -
  let ?u = "example_name ''2.3'' ''URI'' ''cpe:/a:hp'' (Str ''a'') (Str ''hp'') VALUE_ANY_VALUE"
  let ?k = "example_name ''2.3'' ''WFN'' ''k1'' (Str ''a'') (Str ''hp'') (Str ''mac'')"
  have u: "version ?u = ''2.3''" "style ?u \<noteq> ''WFN''"
    by (simp_all add: example_name_def)
  have k: "version ?k = ''2.3''" "style ?k = ''WFN''" "\<exists>k\<in>set (K \<lparr>K = [?k]\<rparr>). str ?k = str k"
    by (simp_all add: example_name_def)
  from append_cpe_errors_and_duplicates [of "''2.3''" "''WFN''" init ?u] u
  have 1: "fst (append_cpe ''2.3'' ''WFN'' init ?u) = Inl TypeError"
    by blast
  from append_cpe_errors_and_duplicates [of "''2.3''" "''WFN''" "\<lparr>K = [?k]\<rparr>" ?k] k
  have 2: "append_cpe ''2.3'' ''WFN'' \<lparr>K = [?k]\<rparr> ?k = (Inr (), \<lparr>K = [?k]\<rparr>)"
    by blast
  from append_cpe_errors_and_duplicates [of "''2.3''" "''WFN''" init ?k] k(1,2)
  have 3: "len (snd (append_cpe ''2.3'' ''WFN'' (snd (append_cpe ''2.3'' ''WFN'' init ?k)) ?k))
           = len (snd (append_cpe ''2.3'' ''WFN'' init ?k))"
    by blast
  from 1 2 3 show ?thesis by blast
qed

text \<open>
  Claim C10. Whenever \<open>append\<close> raises, be it the value error or the type error, the
  collection is left as it was: both checks come before the only statement that changes
  \<open>self.K\<close>.
\<close>

theorem append_cpe_atomic_on_error:
  "fst (append_cpe VERSION_2_3 STYLE_WFN self cpe) = Inl e \<Longrightarrow>
   snd (append_cpe VERSION_2_3 STYLE_WFN self cpe) = self"
  by (auto simp: append_cpe_def split: if_splits)

theorem append_cpe_atomic_on_error_witness:
  "fst (append_cpe ''2.3'' ''WFN''
          \<lparr>K = [example_name ''2.3'' ''WFN'' ''k1'' (Str ''a'') (Str ''hp'') (Str ''mac'')]\<rparr>
          (example_name ''2.2'' ''WFN'' ''k2'' (Str ''o'') (Str ''hp'') (Str ''ux'')))
     = Inl ValueError \<and>
   snd (append_cpe ''2.3'' ''WFN''
          \<lparr>K = [example_name ''2.3'' ''WFN'' ''k1'' (Str ''a'') (Str ''hp'') (Str ''mac'')]\<rparr>
          (example_name ''2.2'' ''WFN'' ''k2'' (Str ''o'') (Str ''hp'') (Str ''ux'')))
     = \<lparr>K = [example_name ''2.3'' ''WFN'' ''k1'' (Str ''a'') (Str ''hp'') (Str ''mac'')]\<rparr> \<and>
   fst (append_cpe ''2.3'' ''WFN''
          \<lparr>K = [example_name ''2.3'' ''WFN'' ''k1'' (Str ''a'') (Str ''hp'') (Str ''mac'')]\<rparr>
          (example_name ''2.3'' ''FS'' ''k2'' (Str ''o'') (Str ''hp'') (Str ''ux'')))
     = Inl TypeError \<and>
   snd (append_cpe ''2.3'' ''WFN''
          \<lparr>K = [example_name ''2.3'' ''WFN'' ''k1'' (Str ''a'') (Str ''hp'') (Str ''mac'')]\<rparr>
          (example_name ''2.3'' ''FS'' ''k2'' (Str ''o'') (Str ''hp'') (Str ''ux'')))
     = \<lparr>K = [example_name ''2.3'' ''WFN'' ''k1'' (Str ''a'') (Str ''hp'') (Str ''mac'')]\<rparr>"
proof -
  let ?s = "\<lparr>K = [example_name ''2.3'' ''WFN'' ''k1'' (Str ''a'') (Str ''hp'') (Str ''mac'')]\<rparr>"
  let ?v = "example_name ''2.2'' ''WFN'' ''k2'' (Str ''o'') (Str ''hp'') (Str ''ux'')"
  let ?t = "example_name ''2.3'' ''FS'' ''k2'' (Str ''o'') (Str ''hp'') (Str ''ux'')"
  have v: "fst (append_cpe ''2.3'' ''WFN'' ?s ?v) = Inl ValueError"
    by (simp add: append_cpe_def example_name_def)
  have t: "fst (append_cpe ''2.3'' ''WFN'' ?s ?t) = Inl TypeError"
    by (simp add: append_cpe_def example_name_def)
  from v t append_cpe_atomic_on_error [OF v] append_cpe_atomic_on_error [OF t]
  show ?thesis by blast
qed

end
